theory Spec2Isabelle
  imports Main "HOL-Library.Multiset"
begin

section \<open>JavaScript values\<close>

text \<open>
  The upstream answers with parsed JSON, and the code reads it dynamically
  (\<^verbatim>\<open>node.id\<close>, \<^verbatim>\<open>node.address?.toLowerCase()\<close>).  A value is therefore a
  tree: \<open>JNum\<close> carries an integer (only the zero test is ever observed here),
  \<open>JObj\<close> an association list as parsed, \<open>JDate v\<close> stands for
  \<^verbatim>\<open>new Date(v)\<close>.
\<close>

datatype js =
    JUndefined
  | JNull
  | JBool bool
  | JNum int
  | JStr string
  | JArr "js list"
  | JObj "(string \<times> js) list"
  | JDate js

text \<open>An exception: a \<^verbatim>\<open>TypeError\<close> of the engine, or an \<^verbatim>\<open>Error\<close> built by the code.\<close>

datatype error = TypeError string | Error string

fun message :: "error \<Rightarrow> string" where
  "message (TypeError m) = m"
| "message (Error m) = m"

text \<open>Truthiness as \<^verbatim>\<open>if (v)\<close>, \<^verbatim>\<open>!v\<close> and \<^verbatim>\<open>v || d\<close> see it.\<close>

fun truthy :: "js \<Rightarrow> bool" where
  "truthy JUndefined = False"
| "truthy JNull = False"
| "truthy (JBool b) = b"
| "truthy (JNum n) = (n \<noteq> 0)"
| "truthy (JStr s) = (s \<noteq> [])"
| "truthy (JArr xs) = True"
| "truthy (JObj kvs) = True"
| "truthy (JDate v) = True"

fun nullish :: "js \<Rightarrow> bool" where
  "nullish JUndefined = True"
| "nullish JNull = True"
| "nullish v = False"

text \<open>
  \<^verbatim>\<open>v.k\<close> for the property names the code reads (none of them is a built-in
  property of strings, numbers, booleans, arrays or dates): a \<^verbatim>\<open>TypeError\<close> on
  \<^verbatim>\<open>undefined\<close> and \<^verbatim>\<open>null\<close>, the stored value on an object, \<^verbatim>\<open>undefined\<close>
  otherwise.
\<close>

fun field :: "js \<Rightarrow> string \<Rightarrow> js" where
  "field (JObj kvs) k = (case map_of kvs k of Some v \<Rightarrow> v | None \<Rightarrow> JUndefined)"
| "field v k = JUndefined"

definition get_prop :: "js \<Rightarrow> string \<Rightarrow> error + js" where
  "get_prop v k =
     (if nullish v
      then Inl (TypeError (''Cannot read properties of undefined (reading '' @ k @ '')''))
      else Inr (field v k))"

text \<open>\<^verbatim>\<open>v?.k\<close>: \<^verbatim>\<open>undefined\<close> instead of the exception.\<close>

definition opt_prop :: "js \<Rightarrow> string \<Rightarrow> js" where
  "opt_prop v k = (if nullish v then JUndefined else field v k)"

section \<open>Strings\<close>

text \<open>
  Contract addresses and queries are ASCII text; \<open>toLowerCase\<close> and
  \<open>toUpperCase\<close> are modelled on the ASCII letters and leave every other
  character alone.  \<open>trim\<close> strips the ASCII white space and line terminators
  from both ends.
\<close>

definition ascii :: "string \<Rightarrow> bool" where
  "ascii s = list_all (\<lambda>c. of_char c < (128::nat)) s"

definition lower_char :: "char \<Rightarrow> char" where
  "lower_char c =
     (if 65 \<le> (of_char c :: nat) \<and> (of_char c :: nat) \<le> 90
      then char_of ((of_char c :: nat) + 32) else c)"

definition upper_char :: "char \<Rightarrow> char" where
  "upper_char c =
     (if 97 \<le> (of_char c :: nat) \<and> (of_char c :: nat) \<le> 122
      then char_of ((of_char c :: nat) - 32) else c)"

definition toLowerCase :: "string \<Rightarrow> string" where
  "toLowerCase s = map lower_char s"

definition toUpperCase :: "string \<Rightarrow> string" where
  "toUpperCase s = map upper_char s"

definition is_space :: "char \<Rightarrow> bool" where
  "is_space c = (of_char c \<in> {9, 10, 11, 12, 13, 32 :: nat})"

definition trim :: "string \<Rightarrow> string" where
  "trim s = rev (dropWhile is_space (rev (dropWhile is_space s)))"

text \<open>
  Two spellings of one address: the same length, and at each position the
  same character up to its case.
\<close>

definition same_up_to_case :: "string \<Rightarrow> string \<Rightarrow> bool" where
  "same_up_to_case q a = list_all2 (\<lambda>x y. lower_char x = lower_char y) q a"

section \<open>Token documents\<close>

text \<open>
  The object literal of \<^verbatim>\<open>transformTokens\<close>, field for field.  \<open>lastUpdated\<close>
  is the reading of the clock in milliseconds.
\<close>

record token =
  zoraId :: js
  name :: js
  description :: js
  address :: js
  symbol :: js
  totalSupply :: js
  totalVolume :: js
  volume24h :: js
  createdAt :: js
  creatorAddress :: js
  poolCurrencyToken :: js
  tokenPrice :: js
  marketCap :: js
  marketCapDelta24h :: js
  chainId :: js
  tokenUri :: js
  platformReferrerAddress :: js
  payoutRecipientAddress :: js
  creatorProfile :: js
  mediaContent :: js
  uniqueHolders :: js
  uniswapV4PoolKey :: js
  listType :: string
  lastUpdated :: int
  isActive :: bool

section \<open>ZoraService.transformTokens\<close>

text \<open>\<^verbatim>\<open>node.address?.toLowerCase()\<close>: only a string has the method.\<close>

definition lowered_address :: "js \<Rightarrow> error + js" where
  "lowered_address a =
     (case a of
        JUndefined \<Rightarrow> Inr JUndefined
      | JNull \<Rightarrow> Inr JUndefined
      | JStr s \<Rightarrow> Inr (JStr (toLowerCase s))
      | _ \<Rightarrow> Inl (TypeError ''node.address?.toLowerCase is not a function''))"

text \<open>
  The callback of \<^verbatim>\<open>edges.map\<close>.  Reading \<^verbatim>\<open>edge.node\<close> throws on a
  \<^verbatim>\<open>null\<close> edge, reading \<^verbatim>\<open>node.id\<close> throws when the edge has no node;
  after that every \<^verbatim>\<open>node.x\<close> succeeds.  \<open>now\<close> is what \<^verbatim>\<open>new Date()\<close>
  reads while this edge is mapped.
\<close>

definition transform_edge :: "string \<Rightarrow> int \<Rightarrow> js \<Rightarrow> error + token" where
  "transform_edge lt now edge =
     (case get_prop edge ''node'' of
        Inl e \<Rightarrow> Inl e
      | Inr node \<Rightarrow>
          (case get_prop node ''id'' of
             Inl e \<Rightarrow> Inl e
           | Inr ident \<Rightarrow>
               (case lowered_address (field node ''address'') of
                  Inl e \<Rightarrow> Inl e
                | Inr addr \<Rightarrow> Inr
                   \<lparr> zoraId = ident,
                     name = field node ''name'',
                     description = field node ''description'',
                     address = addr,
                     symbol = field node ''symbol'',
                     totalSupply = field node ''totalSupply'',
                     totalVolume = field node ''totalVolume'',
                     volume24h = field node ''volume24h'',
                     createdAt = (if truthy (field node ''createdAt'')
                                  then JDate (field node ''createdAt'') else JNull),
                     creatorAddress = field node ''creatorAddress'',
                     poolCurrencyToken = field node ''poolCurrencyToken'',
                     tokenPrice = field node ''tokenPrice'',
                     marketCap = field node ''marketCap'',
                     marketCapDelta24h = field node ''marketCapDelta24h'',
                     chainId = (if truthy (field node ''chainId'')
                                then field node ''chainId'' else JNum 8453),
                     tokenUri = field node ''tokenUri'',
                     platformReferrerAddress = field node ''platformReferrerAddress'',
                     payoutRecipientAddress = field node ''payoutRecipientAddress'',
                     creatorProfile = field node ''creatorProfile'',
                     mediaContent = field node ''mediaContent'',
                     uniqueHolders = field node ''uniqueHolders'',
                     uniswapV4PoolKey = field node ''uniswapV4PoolKey'',
                     listType = lt,
                     lastUpdated = now,
                     isActive = True \<rparr>)))"

text \<open>
  \<^verbatim>\<open>edges.map(callback)\<close>: left to right, the first exception ends it.
  \<open>clock i\<close> is the time at which edge \<open>i\<close> is mapped.
\<close>

fun map_edges :: "string \<Rightarrow> (nat \<Rightarrow> int) \<Rightarrow> nat \<Rightarrow> js list \<Rightarrow> error + token list" where
  "map_edges lt clock i [] = Inr []"
| "map_edges lt clock i (e # es) =
     (case transform_edge lt (clock i) e of
        Inl err \<Rightarrow> Inl err
      | Inr t \<Rightarrow>
          (case map_edges lt clock (Suc i) es of
             Inl err \<Rightarrow> Inl err
           | Inr ts \<Rightarrow> Inr (t # ts)))"

definition transformTokens :: "js \<Rightarrow> string \<Rightarrow> (nat \<Rightarrow> int) \<Rightarrow> error + token list" where
  "transformTokens zoraResponse lt clock =
     (let edges = opt_prop (opt_prop zoraResponse ''exploreList'') ''edges'' in
      if \<not> truthy edges then Inr []
      else (case edges of
              JArr es \<Rightarrow> map_edges lt clock 0 es
            | _ \<Rightarrow> Inl (TypeError ''zoraResponse.exploreList.edges.map is not a function'')))"

section \<open>The Token collection\<close>

text \<open>
  The collection is the list of its documents in insertion order.  The
  driver's operations are modelled as far as the services use them:
  \<^verbatim>\<open>deleteMany\<close>, \<^verbatim>\<open>insertMany\<close>, \<^verbatim>\<open>find\<close> with sort, skip and limit,
  \<^verbatim>\<open>countDocuments\<close> and \<^verbatim>\<open>findOne\<close>.  Identifiers the database adds to a
  document are left out, and a lost connection is not modelled.  Documents
  are stored as given: the identifier and the address are strings in the
  upstream's answers (a value of another type counts as failing validation),
  and the casts of the remaining fields are taken to succeed.
\<close>

type_synonym store = "token list"

definition list_types :: "string list" where
  "list_types = [''NEW'', ''MOST_VALUABLE'', ''TOP_GAINERS'', ''FEATURED'']"

text \<open>A \<^verbatim>\<open>required: true\<close> string of the schema: present and not empty.\<close>

fun required_string :: "js \<Rightarrow> bool" where
  "required_string (JStr s) = (s \<noteq> [])"
| "required_string v = False"

text \<open>The validation of \<^verbatim>\<open>tokenSchema\<close>: \<open>zoraId\<close>, \<open>address\<close>, and the enum of \<open>listType\<close>.\<close>

definition schema_valid :: "token \<Rightarrow> bool" where
  "schema_valid t =
     (required_string (zoraId t) \<and> required_string (address t) \<and> listType t \<in> set list_types)"

text \<open>\<^verbatim>\<open>Token.deleteMany({ listType })\<close>: the count of deleted documents and what is left.\<close>

definition deleteMany :: "string \<Rightarrow> store \<Rightarrow> nat \<times> store" where
  "deleteMany lt st =
     (length (filter (\<lambda>t. listType t = lt) st), filter (\<lambda>t. listType t \<noteq> lt) st)"

text \<open>
  The ordered insert of the driver under the unique index on \<open>zoraId\<close>: one
  document after the other, stopping at the first duplicate key; what was
  inserted before it stays.
\<close>

fun insert_ordered :: "token list \<Rightarrow> store \<Rightarrow> (error + token list) \<times> store" where
  "insert_ordered [] st = (Inr [], st)"
| "insert_ordered (t # ts) st =
     (if zoraId t \<in> set (map zoraId st)
      then (Inl (Error ''E11000 duplicate key error''), st)
      else (case insert_ordered ts (st @ [t]) of
              (Inl e, st') \<Rightarrow> (Inl e, st')
            | (Inr ds, st') \<Rightarrow> (Inr (t # ds), st')))"

text \<open>
  \<^verbatim>\<open>Token.insertMany(tokens)\<close>: every document is validated first, and nothing
  is written when one of them fails.
\<close>

definition insertMany :: "token list \<Rightarrow> store \<Rightarrow> (error + token list) \<times> store" where
  "insertMany ts st =
     (if list_all schema_valid ts then insert_ordered ts st
      else (Inl (Error ''Token validation failed''), st))"

text \<open>The filter \<^verbatim>\<open>{ listType, isActive: true }\<close>.\<close>

definition in_list :: "string \<Rightarrow> token \<Rightarrow> bool" where
  "in_list lt t = (listType t = lt \<and> isActive t)"

text \<open>
  \<^verbatim>\<open>.sort({ lastUpdated: -1 })\<close>: newest first; documents with the same time
  keep their order in the collection.
\<close>

definition newest_first :: "token list \<Rightarrow> token list" where
  "newest_first ts = sort_key (\<lambda>t. - lastUpdated t) ts"

text \<open>\<^verbatim>\<open>.limit(n)\<close>: zero means no limit, a negative \<open>n\<close> its absolute value.\<close>

definition limit_docs :: "int \<Rightarrow> 'a list \<Rightarrow> 'a list" where
  "limit_docs n xs = (if n = 0 then xs else take (nat \<bar>n\<bar>) xs)"

section \<open>TokenService\<close>

datatype replace_result =
    NoTokens
  | Replaced (deleted: nat) (inserted: nat) (total_given: nat)

text \<open>
  \<^verbatim>\<open>replaceFeaturedTokens(tokens)\<close>.  \<open>None\<close> is a missing argument.  The
  result \<open>NoTokens\<close> is \<^verbatim>\<open>{ success: false, message: "No tokens to store" }\<close>,
  \<open>Replaced\<close> is \<^verbatim>\<open>{ success: true, deleted, inserted, total }\<close>.
\<close>

definition replaceFeaturedTokens :: "token list option \<Rightarrow> store \<Rightarrow> (error + replace_result) \<times> store" where
  "replaceFeaturedTokens tokens st =
     (case tokens of
        None \<Rightarrow> (Inr NoTokens, st)
      | Some [] \<Rightarrow> (Inr NoTokens, st)
      | Some ts \<Rightarrow>
          (let (n, st1) = deleteMany ''FEATURED'' st in
           case insertMany ts st1 of
             (Inl e, st2) \<Rightarrow>
               (Inl (Error (''Failed to replace FEATURED tokens: '' @ message e)), st2)
           | (Inr ds, st2) \<Rightarrow> (Inr (Replaced n (length ds) (length ts)), st2)))"

text \<open>
  The number \<^verbatim>\<open>Math.ceil(total / limit)\<close>: the division by zero gives
  \<^verbatim>\<open>Infinity\<close>, or \<^verbatim>\<open>NaN\<close> for \<^verbatim>\<open>0 / 0\<close>.
\<close>

datatype page_count = Pages int | Infinity | NaN

definition ceil_div :: "nat \<Rightarrow> int \<Rightarrow> page_count" where
  "ceil_div n d =
     (if d = 0 then (if n = 0 then NaN else Infinity)
      else Pages (- ((- int n) div d)))"

record pagination =
  page :: int
  limit :: int
  total :: nat
  pages :: page_count
  hasNext :: bool
  hasPrev :: bool

record 'a paged =
  tokens :: "'a list"
  pagination :: pagination

text \<open>
  \<^verbatim>\<open>getTokensByListType(listType, page, limit)\<close> on integers.  The database
  refuses a negative skip, and the service rethrows.
\<close>

definition getTokensByListType :: "string \<Rightarrow> int \<Rightarrow> int \<Rightarrow> store \<Rightarrow> error + token paged" where
  "getTokensByListType lt pg lim st =
     (let skip = (pg - 1) * lim in
      if skip < 0
      then Inl (Error (''Failed to fetch '' @ lt @ '' tokens: skip must be non-negative''))
      else
        (let found = limit_docs lim (drop (nat skip) (newest_first (filter (in_list lt) st)));
             n = length (filter (in_list lt) st)
         in Inr \<lparr> tokens = found,
                  pagination = \<lparr> page = pg, limit = lim, total = n,
                                  pages = ceil_div n lim,
                                  hasNext = (skip + lim < int n),
                                  hasPrev = (pg > 1) \<rparr> \<rparr>))"

text \<open>
  \<^verbatim>\<open>getTokenByAddress(address)\<close>: the first active document stored under the
  lower-cased address, or \<^verbatim>\<open>null\<close>.
\<close>

definition getTokenByAddress :: "string \<Rightarrow> store \<Rightarrow> token option" where
  "getTokenByAddress a st =
     find (\<lambda>t. address t = JStr (toLowerCase a) \<and> isActive t) st"

section \<open>ZoraService.fetchExploreTokens\<close>

text \<open>
  The query parameters of one \<^verbatim>\<open>GET /explore\<close>.  The upstream is a function
  from the request to what axios gives back: the message of its exception, or
  \<^verbatim>\<open>response.data\<close>.
\<close>

record request =
  req_listType :: string
  req_count :: int
  req_cursor :: "string option"

type_synonym upstream = "request \<Rightarrow> string + js"

text \<open>
  The state the refresh job works on: its own fields, the collection, and the
  requests sent to the upstream so far.
\<close>

record world =
  isRunning :: bool
  lastRun :: "int option"
  timer :: "int option"
  docs :: store
  requests :: "request list"

text \<open>
  \<^verbatim>\<open>fetchExploreTokens(listType, count, cursor)\<close>: the count is capped by
  \<^verbatim>\<open>Math.min(count, 100)\<close>, the cursor is sent when it is truthy, and a failure
  is rethrown under a new message.
\<close>

definition fetchExploreTokens ::
  "upstream \<Rightarrow> string \<Rightarrow> int \<Rightarrow> string option \<Rightarrow> world \<Rightarrow> (error + js) \<times> world" where
  "fetchExploreTokens up lt cnt cursor w =
     (let params = \<lparr> req_listType = lt, req_count = min cnt 100,
                      req_cursor = (case cursor of
                                      None \<Rightarrow> None
                                    | Some c \<Rightarrow> if c = [] then None else Some c) \<rparr>;
          w' = w\<lparr>requests := requests w @ [params]\<rparr>
      in case up params of
           Inl m \<Rightarrow> (Inl (Error (''Failed to fetch '' @ lt @ '' tokens: '' @ m)), w')
         | Inr data \<Rightarrow> (Inr data, w'))"

section \<open>DataRefreshJob\<close>

text \<open>The constructor: not running, no last run, no timer, nothing stored or sent.\<close>

definition new_job :: world where
  "new_job = \<lparr> isRunning = False, lastRun = None, timer = None, docs = [], requests = [] \<rparr>"

definition cooldown :: int where
  "cooldown = 2 * 60 * 1000"

text \<open>\<^verbatim>\<open>this.lastRun\<close> as a condition: set, and not the number zero.\<close>

fun truthy_time :: "int option \<Rightarrow> bool" where
  "truthy_time None = False"
| "truthy_time (Some t) = (t \<noteq> 0)"

text \<open>
  The guard of \<^verbatim>\<open>runRefresh\<close>, with \<open>now\<close> the reading of \<^verbatim>\<open>Date.now()\<close>.
\<close>

definition cooling_down :: "int \<Rightarrow> world \<Rightarrow> bool" where
  "cooling_down now w =
     (isRunning w \<and> truthy_time (lastRun w) \<and>
      (case lastRun w of None \<Rightarrow> False | Some t \<Rightarrow> now - t < cooldown))"

text \<open>
  The three steps both \<^verbatim>\<open>runRefresh\<close> and \<^verbatim>\<open>refreshFeaturedTokens\<close> take
  inside their \<^verbatim>\<open>try\<close>; the \<^verbatim>\<open>catch\<close> of either logs and rethrows.
\<close>

definition fetch_transform_replace ::
  "upstream \<Rightarrow> (nat \<Rightarrow> int) \<Rightarrow> world \<Rightarrow> (error + replace_result) \<times> world" where
  "fetch_transform_replace up clock w =
     (case fetchExploreTokens up ''FEATURED'' 100 None w of
        (Inl e, w1) \<Rightarrow> (Inl e, w1)
      | (Inr zoraData, w1) \<Rightarrow>
          (case transformTokens zoraData ''FEATURED'' clock of
             Inl e \<Rightarrow> (Inl e, w1)
           | Inr transformedTokens \<Rightarrow>
               (case replaceFeaturedTokens (Some transformedTokens) (docs w1) of
                  (Inl e, st) \<Rightarrow> (Inl e, w1\<lparr>docs := st\<rparr>)
                | (Inr r, st) \<Rightarrow> (Inr r, w1\<lparr>docs := st\<rparr>))))"

text \<open>
  \<^verbatim>\<open>runRefresh()\<close> started at time \<open>now\<close>.  The result \<open>None\<close> is the bare
  \<^verbatim>\<open>return\<close> of a skipped call.  One call is taken as one step: the guard and
  the assignment to \<open>lastRun\<close> run before the first \<^verbatim>\<open>await\<close>.
\<close>

definition runRefresh ::
  "upstream \<Rightarrow> (nat \<Rightarrow> int) \<Rightarrow> int \<Rightarrow> world \<Rightarrow> (error + replace_result option) \<times> world" where
  "runRefresh up clock now w =
     (if cooling_down now w then (Inr None, w)
      else (case fetch_transform_replace up clock (w\<lparr>lastRun := Some now\<rparr>) of
              (Inl e, w') \<Rightarrow> (Inl e, w')
            | (Inr r, w') \<Rightarrow> (Inr (Some r), w')))"

text \<open>\<^verbatim>\<open>forceRefresh()\<close>: logs, then \<^verbatim>\<open>return await this.runRefresh()\<close>.\<close>

definition forceRefresh ::
  "upstream \<Rightarrow> (nat \<Rightarrow> int) \<Rightarrow> int \<Rightarrow> world \<Rightarrow> (error + replace_result option) \<times> world" where
  "forceRefresh up clock now w = runRefresh up clock now w"

text \<open>\<^verbatim>\<open>refreshFeaturedTokens()\<close>: the three steps, and nothing before them.\<close>

definition refreshFeaturedTokens ::
  "upstream \<Rightarrow> (nat \<Rightarrow> int) \<Rightarrow> world \<Rightarrow> (error + replace_result) \<times> world" where
  "refreshFeaturedTokens up clock w = fetch_transform_replace up clock w"

text \<open>
  \<^verbatim>\<open>start(intervalMinutes)\<close>: nothing when already running; otherwise the flag,
  the timer (kept as its period in milliseconds) and a first \<^verbatim>\<open>runRefresh()\<close>
  whose result is not awaited.  \<^verbatim>\<open>stop()\<close> clears both.
\<close>

definition start :: "upstream \<Rightarrow> (nat \<Rightarrow> int) \<Rightarrow> int \<Rightarrow> int \<Rightarrow> world \<Rightarrow> world" where
  "start up clock now intervalMinutes w =
     (if isRunning w then w
      else snd (runRefresh up clock now
                  (w\<lparr>isRunning := True, timer := Some (intervalMinutes * 60 * 1000)\<rparr>)))"

definition stop :: "world \<Rightarrow> world" where
  "stop w = w\<lparr>timer := None, isRunning := False\<rparr>"

text \<open>
  A run of calls to \<^verbatim>\<open>runRefresh()\<close>, by the timer or by hand, one after the
  other: each call with the upstream's behaviour, the clock of its mapping
  and its start time.  The results are collected in order.
\<close>

type_synonym refresh_call = "upstream \<times> (nat \<Rightarrow> int) \<times> int"

definition call_time :: "refresh_call \<Rightarrow> int" where
  "call_time c = snd (snd c)"

fun run_calls :: "refresh_call list \<Rightarrow> world \<Rightarrow> (error + replace_result option) list \<times> world" where
  "run_calls [] w = ([], w)"
| "run_calls (c # cs) w =
     (case runRefresh (fst c) (fst (snd c)) (call_time c) w of
        (r, w1) \<Rightarrow> (case run_calls cs w1 of (rs, w2) \<Rightarrow> (r # rs, w2)))"

section \<open>TokenService.searchTokens and the TokenController\<close>

text \<open>
  The regular-expression engine is a parameter: \<open>rx q\<close> is \<open>None\<close> when
  \<^verbatim>\<open>new RegExp(q, "i")\<close> throws, and otherwise the test of a string against
  the pattern.
\<close>

type_synonym regex_engine = "string \<Rightarrow> (string \<Rightarrow> bool) option"

fun matches :: "(string \<Rightarrow> bool) \<Rightarrow> js \<Rightarrow> bool" where
  "matches r (JStr s) = r s"
| "matches r v = False"

text \<open>
  \<^verbatim>\<open>searchTokens(query, listType, limit)\<close> of the service.  The sort key
  \<open>marketCapNumeric\<close> is never written by \<^verbatim>\<open>insertMany\<close>, so the order is the
  collection's.
\<close>

definition searchTokens :: "regex_engine \<Rightarrow> string \<Rightarrow> string option \<Rightarrow> int \<Rightarrow> store \<Rightarrow> error + token list" where
  "searchTokens rx query lt lim st =
     (case rx query of
        None \<Rightarrow> Inl (Error ''Failed to search tokens: Invalid regular expression'')
      | Some r \<Rightarrow>
          Inr (limit_docs lim
                 (filter (\<lambda>t. isActive t
                            \<and> (matches r (name t) \<or> matches r (symbol t) \<or> matches r (description t))
                            \<and> (case lt of
                                  None \<Rightarrow> True
                                | Some l \<Rightarrow> l = [] \<or> listType t = l)) st)))"

text \<open>A response: the status and the JSON body.\<close>

datatype 'a reply = Reply (status: nat) (body: 'a)

datatype search_body =
    Found (found_data: "token list") (found_query: string) (found_listType: string) (found_count: nat)
  | Failure (failure_message: string) (failure_error: "string option")

text \<open>What a handler asks of the store, in the order it asks.\<close>

datatype store_call =
    SearchCall string "string option" int
  | LoadFile
  | FilterCall string

text \<open>
  \<^verbatim>\<open>TokenController.searchTokens(req, res)\<close>.  \<open>q\<close> is \<^verbatim>\<open>req.query.q\<close>, \<open>None\<close>
  when the parameter is missing; \<open>lim\<close> is the parsed limit.
\<close>

definition controller_searchTokens ::
  "regex_engine \<Rightarrow> string option \<Rightarrow> string option \<Rightarrow> int \<Rightarrow> store \<Rightarrow> search_body reply \<times> store_call list" where
  "controller_searchTokens rx q lt lim st =
     (case q of
        None \<Rightarrow> (Reply 400 (Failure ''Search query must be at least 2 characters long'' None), [])
      | Some query \<Rightarrow>
          if query = [] \<or> length (trim query) < 2
          then (Reply 400 (Failure ''Search query must be at least 2 characters long'' None), [])
          else (case searchTokens rx (trim query) lt lim st of
                  Inl e \<Rightarrow>
                    (Reply 500 (Failure ''Failed to search tokens'' (Some (message e))),
                     [SearchCall (trim query) lt lim])
                | Inr ts \<Rightarrow>
                    (Reply 200 (Found ts (trim query)
                                  (case lt of None \<Rightarrow> ''all'' | Some l \<Rightarrow> if l = [] then ''all'' else l)
                                  (length ts)),
                     [SearchCall (trim query) lt lim])))"

datatype featured_body =
    Listing (listing_data: "token list") (listing_pagination: pagination)
  | ListingFailure string string

text \<open>
  \<^verbatim>\<open>TokenController.getFeaturedTokens(req, res)\<close> with the page and the limit
  as parsed integers, \<open>None\<close> for a missing parameter.
\<close>

definition getFeaturedTokens :: "int option \<Rightarrow> int option \<Rightarrow> store \<Rightarrow> featured_body reply" where
  "getFeaturedTokens pg lim st =
     (case getTokensByListType ''FEATURED''
             (case pg of None \<Rightarrow> 1 | Some p \<Rightarrow> p)
             (case lim of None \<Rightarrow> 20 | Some l \<Rightarrow> l) st of
        Inl e \<Rightarrow> Reply 500 (ListingFailure ''Failed to fetch FEATURED tokens'' (message e))
      | Inr r \<Rightarrow> Reply 200 (Listing (tokens r) (pagination r)))"

section \<open>The file-backed server\<close>

text \<open>
  The second server of the repository keeps the tokens in \<^verbatim>\<open>tokens.json\<close>.
  Its token is the object literal of \<^verbatim>\<open>fetchTokens\<close>.
\<close>

record file_token =
  ft_id :: nat
  ft_name :: js
  ft_description :: js
  ft_address :: js
  ft_symbol :: js
  ft_marketCap :: js
  ft_volume24h :: js
  ft_uniqueHolders :: js
  ft_creatorProfile :: js
  ft_mediaContent :: js
  ft_createdAt :: js
  ft_lastUpdated :: int

record tokens_file =
  file_tokens :: "file_token list"
  file_lastUpdated :: "int option"
  file_count :: "nat option"

text \<open>\<^verbatim>\<open>a || b\<close>.\<close>

definition js_or :: "js \<Rightarrow> js \<Rightarrow> js" where
  "js_or a b = (if truthy a then a else b)"

definition file_edge :: "int \<Rightarrow> nat \<Rightarrow> js \<Rightarrow> error + file_token" where
  "file_edge now index edge =
     (case get_prop edge ''node'' of
        Inl e \<Rightarrow> Inl e
      | Inr node \<Rightarrow>
          (case get_prop node ''name'' of
             Inl e \<Rightarrow> Inl e
           | Inr nm \<Rightarrow>
               (case lowered_address (field node ''address'') of
                  Inl e \<Rightarrow> Inl e
                | Inr addr \<Rightarrow> Inr
                   \<lparr> ft_id = index + 1,
                     ft_name = js_or nm (JStr ''Unnamed Token''),
                     ft_description = js_or (field node ''description'') (JStr []),
                     ft_address = addr,
                     ft_symbol = field node ''symbol'',
                     ft_marketCap = field node ''marketCap'',
                     ft_volume24h = field node ''volume24h'',
                     ft_uniqueHolders = field node ''uniqueHolders'',
                     ft_creatorProfile = field node ''creatorProfile'',
                     ft_mediaContent = field node ''mediaContent'',
                     ft_createdAt = field node ''createdAt'',
                     ft_lastUpdated = now \<rparr>)))"

fun file_edges :: "(nat \<Rightarrow> int) \<Rightarrow> nat \<Rightarrow> js list \<Rightarrow> error + file_token list" where
  "file_edges clock i [] = Inr []"
| "file_edges clock i (e # es) =
     (case file_edge (clock i) i e of
        Inl err \<Rightarrow> Inl err
      | Inr t \<Rightarrow>
          (case file_edges clock (Suc i) es of
             Inl err \<Rightarrow> Inl err
           | Inr ts \<Rightarrow> Inr (t # ts)))"

text \<open>\<^verbatim>\<open>response.data?.exploreList?.edges?.map(...) || []\<close>.\<close>

definition file_transform :: "js \<Rightarrow> (nat \<Rightarrow> int) \<Rightarrow> error + file_token list" where
  "file_transform data clock =
     (let edges = opt_prop (opt_prop data ''exploreList'') ''edges'' in
      if nullish edges then Inr []
      else (case edges of
              JArr es \<Rightarrow> file_edges clock 0 es
            | _ \<Rightarrow> Inl (TypeError ''edges?.map is not a function'')))"

text \<open>
  \<^verbatim>\<open>fetchTokens()\<close>: the request, the mapping, the write of the file at time
  \<open>now\<close>.  Its \<^verbatim>\<open>catch\<close> logs whatever was thrown and returns \<^verbatim>\<open>null\<close>, here
  \<open>None\<close>.  The state is the file, absent before the first write.
\<close>

definition featured_request :: request where
  "featured_request = \<lparr> req_listType = ''FEATURED'', req_count = 100, req_cursor = None \<rparr>"

definition fetchTokens ::
  "upstream \<Rightarrow> (nat \<Rightarrow> int) \<Rightarrow> int \<Rightarrow> tokens_file option \<Rightarrow> file_token list option \<times> tokens_file option" where
  "fetchTokens up clock now file =
     (case up featured_request of
        Inl m \<Rightarrow> (None, file)
      | Inr data \<Rightarrow>
          (case file_transform data clock of
             Inl e \<Rightarrow> (None, file)
           | Inr ts \<Rightarrow> (Some ts, Some \<lparr> file_tokens = ts, file_lastUpdated = Some now,
                                        file_count = Some (length ts) \<rparr>)))"

text \<open>\<^verbatim>\<open>loadTokens()\<close>: the file, or the empty answer when it cannot be read.\<close>

definition loadTokens :: "tokens_file option \<Rightarrow> tokens_file" where
  "loadTokens file =
     (case file of
        None \<Rightarrow> \<lparr> file_tokens = [], file_lastUpdated = None, file_count = None \<rparr>
      | Some d \<Rightarrow> d)"

text \<open>\<^verbatim>\<open>xs.slice(b, e)\<close> on integers: a negative index counts from the end.\<close>

definition js_slice :: "int \<Rightarrow> int \<Rightarrow> 'a list \<Rightarrow> 'a list" where
  "js_slice b e xs =
     (let n = int (length xs);
          k = (if b < 0 then max (n + b) 0 else min b n);
          f = (if e < 0 then max (n + e) 0 else min e n)
      in take (nat (f - k)) (drop (nat k) xs))"

record file_listing =
  fl_data :: "file_token list"
  fl_pagination :: pagination
  fl_lastUpdated :: "int option"

text \<open>The handler of \<^verbatim>\<open>GET /api/tokens/featured\<close>, on the parsed page and limit.\<close>

definition route_featured :: "int \<Rightarrow> int \<Rightarrow> tokens_file option \<Rightarrow> file_listing reply" where
  "route_featured pg lim file =
     (let data = loadTokens file;
          startIndex = (pg - 1) * lim;
          endIndex = startIndex + lim;
          n = length (file_tokens data)
      in Reply 200
           \<lparr> fl_data = js_slice startIndex endIndex (file_tokens data),
             fl_pagination = \<lparr> page = pg, limit = lim, total = n,
                                pages = ceil_div n lim,
                                hasNext = (endIndex < int n),
                                hasPrev = (pg > 1) \<rparr>,
             fl_lastUpdated = file_lastUpdated data \<rparr>)"

datatype file_search_body =
    FileFound "file_token list" string nat
  | FileFailure string "string option"

text \<open>
  \<^verbatim>\<open>v?.match(searchRegex)\<close>: no match for a missing value, the test for a
  string, a \<^verbatim>\<open>TypeError\<close> for any other value, which has no such method.
\<close>

fun optional_match :: "(string \<Rightarrow> bool) \<Rightarrow> js \<Rightarrow> error + bool" where
  "optional_match r JUndefined = Inr False"
| "optional_match r JNull = Inr False"
| "optional_match r (JStr s) = Inr (r s)"
| "optional_match r v = Inl (TypeError ''match is not a function'')"

text \<open>The callback of the filter: name, symbol, description, the first match decides.\<close>

definition token_matches :: "(string \<Rightarrow> bool) \<Rightarrow> file_token \<Rightarrow> error + bool" where
  "token_matches r t =
     (case optional_match r (ft_name t) of
        Inl e \<Rightarrow> Inl e
      | Inr True \<Rightarrow> Inr True
      | Inr False \<Rightarrow>
          (case optional_match r (ft_symbol t) of
             Inl e \<Rightarrow> Inl e
           | Inr True \<Rightarrow> Inr True
           | Inr False \<Rightarrow> optional_match r (ft_description t)))"

fun filter_tokens :: "(string \<Rightarrow> bool) \<Rightarrow> file_token list \<Rightarrow> error + file_token list" where
  "filter_tokens r [] = Inr []"
| "filter_tokens r (t # ts) =
     (case token_matches r t of
        Inl e \<Rightarrow> Inl e
      | Inr b \<Rightarrow>
          (case filter_tokens r ts of
             Inl e \<Rightarrow> Inl e
           | Inr us \<Rightarrow> Inr (if b then t # us else us)))"

text \<open>
  The handler of \<^verbatim>\<open>GET /api/tokens/search\<close>: it loads the file, then checks
  the query, then filters.
\<close>

definition route_search ::
  "regex_engine \<Rightarrow> string option \<Rightarrow> int \<Rightarrow> tokens_file option \<Rightarrow> file_search_body reply \<times> store_call list" where
  "route_search rx q lim file =
     (let data = loadTokens file in
      case q of
        None \<Rightarrow> (Reply 400 (FileFailure ''Search query must be at least 2 characters long'' None),
                  [LoadFile])
      | Some query \<Rightarrow>
          if query = [] \<or> length query < 2
          then (Reply 400 (FileFailure ''Search query must be at least 2 characters long'' None),
                [LoadFile])
          else (case rx query of
                  None \<Rightarrow> (Reply 500 (FileFailure ''Failed to search tokens''
                                         (Some ''Invalid regular expression'')), [LoadFile])
                | Some r \<Rightarrow>
                    (case filter_tokens r (file_tokens data) of
                       Inl e \<Rightarrow>
                         (Reply 500 (FileFailure ''Failed to search tokens'' (Some (message e))),
                          [LoadFile, FilterCall query])
                     | Inr hits \<Rightarrow>
                         (let results = js_slice 0 lim hits
                          in (Reply 200 (FileFound results query (length results)),
                              [LoadFile, FilterCall query])))))"

section \<open>Sample data\<close>

text \<open>An upstream that times out, one that lists nothing, and a clock that ticks once per edge.\<close>

definition upstream_down :: upstream where
  "upstream_down r = Inl ''timeout of 10000ms exceeded''"

definition empty_response :: js where
  "empty_response = JObj [(''exploreList'', JObj [(''edges'', JArr [])])]"

definition upstream_empty :: upstream where
  "upstream_empty r = Inr empty_response"

definition ticking :: "nat \<Rightarrow> int" where
  "ticking i = 5000 + int i"

text \<open>The job as \<^verbatim>\<open>start(5)\<close> leaves it just before its first \<^verbatim>\<open>runRefresh()\<close>.\<close>

definition started_job :: world where
  "started_job = \<lparr> isRunning = True, lastRun = None, timer = Some 300000, docs = [], requests = [] \<rparr>"

text \<open>Three calls within one minute, and two calls one second apart.\<close>

definition three_calls :: "refresh_call list" where
  "three_calls = [(upstream_down, ticking, 1000), (upstream_empty, ticking, 2000),
                  (upstream_empty, ticking, 61000)]"

definition two_calls :: "refresh_call list" where
  "two_calls = [(upstream_down, ticking, 1000), (upstream_down, ticking, 2000)]"

text \<open>A started job whose last run began at time 1000.\<close>

definition recent_job :: world where
  "recent_job = \<lparr> isRunning = True, lastRun = Some 1000, timer = Some 300000, docs = [], requests = [] \<rparr>"







text \<open>
  A stored document with the given identifier, address, list type and time;
  the other fields as \<^verbatim>\<open>transformTokens\<close> leaves them for a node that has
  only an id, a name and an address.
\<close>

definition sample_token :: "string \<Rightarrow> string \<Rightarrow> string \<Rightarrow> int \<Rightarrow> token" where
  "sample_token ident addr lt at =
     \<lparr> zoraId = JStr ident, name = JStr ''Coin'', description = JUndefined,
       address = JStr addr, symbol = JUndefined, totalSupply = JUndefined,
       totalVolume = JUndefined, volume24h = JUndefined, createdAt = JNull,
       creatorAddress = JUndefined, poolCurrencyToken = JUndefined,
       tokenPrice = JUndefined, marketCap = JUndefined, marketCapDelta24h = JUndefined,
       chainId = JNum 8453, tokenUri = JUndefined, platformReferrerAddress = JUndefined,
       payoutRecipientAddress = JUndefined, creatorProfile = JUndefined,
       mediaContent = JUndefined, uniqueHolders = JUndefined,
       uniswapV4PoolKey = JUndefined, listType = lt, lastUpdated = at, isActive = True \<rparr>"

text \<open>A collection with one FEATURED and one NEW document, and a started job over it.\<close>

definition old_store :: store where
  "old_store = [sample_token ''old1'' ''0x0a'' ''FEATURED'' 10, sample_token ''n1'' ''0x0b'' ''NEW'' 11]"

definition stocked_job :: world where
  "stocked_job = \<lparr> isRunning = True, lastRun = None, timer = Some 300000,
                    docs = old_store, requests = [] \<rparr>"

text \<open>A response with one coin, its address in mixed case.\<close>

definition coin_response :: js where
  "coin_response = JObj [(''exploreList'', JObj [(''edges'',
      JArr [JObj [(''node'', JObj [(''id'', JStr ''a1''), (''name'', JStr ''Coin''),
                                   (''address'', JStr ''0xAbCdEf'')])]])])]"

definition coin_token :: token where
  "coin_token = sample_token ''a1'' ''0xabcdef'' ''FEATURED'' 5000"


text \<open>Forty-five active FEATURED documents, and a file of forty-five tokens.\<close>

definition numbered_token :: "nat \<Rightarrow> token" where
  "numbered_token i = sample_token (replicate (Suc i) CHR ''z'') ''0x0c'' ''FEATURED'' (int i)"

definition forty_five :: store where
  "forty_five = map numbered_token [0..<45]"

definition numbered_file_token :: "nat \<Rightarrow> file_token" where
  "numbered_file_token i =
     \<lparr> ft_id = i + 1, ft_name = JStr ''Unnamed Token'', ft_description = JStr [],
       ft_address = JStr ''0x0c'', ft_symbol = JUndefined, ft_marketCap = JUndefined,
       ft_volume24h = JUndefined, ft_uniqueHolders = JUndefined,
       ft_creatorProfile = JUndefined, ft_mediaContent = JUndefined,
       ft_createdAt = JUndefined, ft_lastUpdated = 5000 \<rparr>"

definition forty_five_file :: "tokens_file option" where
  "forty_five_file = Some \<lparr> file_tokens = map numbered_file_token [0..<45],
                             file_lastUpdated = Some 5000, file_count = Some 45 \<rparr>"

text \<open>An engine that accepts every pattern and matches every string.\<close>

definition any_regex :: regex_engine where
  "any_regex q = Some (\<lambda>s. True)"

section \<open>The upstream client\<close>

lemma fetch_transform_replace_requests:
  "requests (snd (fetch_transform_replace up clock w)) = requests w @ [featured_request]"
  by (auto simp: fetch_transform_replace_def fetchExploreTokens_def featured_request_def Let_def
           split: sum.splits prod.splits)

lemma fetch_transform_replace_job:
  "isRunning (snd (fetch_transform_replace up clock w)) = isRunning w"
  "lastRun (snd (fetch_transform_replace up clock w)) = lastRun w"
  "timer (snd (fetch_transform_replace up clock w)) = timer w"
  by (auto simp: fetch_transform_replace_def fetchExploreTokens_def Let_def
           split: sum.splits prod.splits)

lemma fetch_transform_replace_fails:
  "up featured_request = Inl m \<Longrightarrow>
   fetch_transform_replace up clock w =
     (Inl (Error (''Failed to fetch FEATURED tokens: '' @ m)),
      w\<lparr>requests := requests w @ [featured_request]\<rparr>)"
  by (simp add: fetch_transform_replace_def fetchExploreTokens_def featured_request_def Let_def)

lemma fetch_transform_replace_nothing:
  "up featured_request = Inr data \<Longrightarrow> transformTokens data ''FEATURED'' clock = Inr [] \<Longrightarrow>
   fetch_transform_replace up clock w =
     (Inr NoTokens, w\<lparr>requests := requests w @ [featured_request]\<rparr>)"
  by (simp add: fetch_transform_replace_def fetchExploreTokens_def featured_request_def Let_def
        replaceFeaturedTokens_def)

text \<open>
  Claim C6.  Whatever count the caller passes, the request that reaches the
  upstream carries \<open>min count 100\<close>, which is at most 100, and exactly 100
  for a count above the cap; the answer of the call is the upstream's answer
  to that request.
\<close>

theorem fetchExploreTokens_caps_count:
  "\<exists>r. requests (snd (fetchExploreTokens up lt cnt cur w)) = requests w @ [r]
       \<and> fst (fetchExploreTokens up lt cnt cur w) =
           (case up r of
              Inl m \<Rightarrow> Inl (Error (''Failed to fetch '' @ lt @ '' tokens: '' @ m))
            | Inr d \<Rightarrow> Inr d)
       \<and> req_listType r = lt \<and> req_count r = min cnt 100 \<and> req_count r \<le> 100
       \<and> (100 < cnt \<longrightarrow> req_count r = 100)"
  by (auto simp: fetchExploreTokens_def Let_def split: sum.splits)

theorem fetchExploreTokens_caps_500:
  "(100::int) < 500
   \<and> (\<exists>r. requests (snd (fetchExploreTokens upstream_down ''FEATURED'' 500 None new_job)) = [r]
          \<and> req_count r = 100)"
  using fetchExploreTokens_caps_count [of upstream_down "''FEATURED''" 500 None new_job]
  by (auto simp: new_job_def)

section \<open>The cooldown of the refresh job\<close>

lemma runRefresh_runs:
  "\<not> cooling_down now w \<Longrightarrow>
     snd (runRefresh up clock now w) =
       snd (fetch_transform_replace up clock (w\<lparr>lastRun := Some now\<rparr>))
     \<and> fst (runRefresh up clock now w) \<noteq> Inr None"
  by (auto simp: runRefresh_def split: prod.splits sum.splits)

lemma run_calls_append:
  "run_calls (xs @ ys) w =
     (fst (run_calls xs w) @ fst (run_calls ys (snd (run_calls xs w))),
      snd (run_calls ys (snd (run_calls xs w))))"
  by (induction xs arbitrary: w) (auto split: prod.splits)

lemma run_calls_all_skipped:
  assumes "isRunning w" and "lastRun w = Some t" and "t \<noteq> 0"
    and "\<forall>c\<in>set cs. call_time c - t < cooldown"
  shows "run_calls cs w = (replicate (length cs) (Inr None), w)"
  using assms
  by (induction cs) (auto simp: runRefresh_def cooling_down_def)

lemma runRefresh_after:
  assumes "\<not> cooling_down now w"
  shows "isRunning (snd (runRefresh up clock now w)) = isRunning w"
    and "lastRun (snd (runRefresh up clock now w)) = Some now"
    and "requests (snd (runRefresh up clock now w)) = requests w @ [featured_request]"
    and "fst (runRefresh up clock now w) \<noteq> Inr None"
  using runRefresh_runs [OF assms, of up clock]
  by (simp_all add: fetch_transform_replace_job fetch_transform_replace_requests)

text \<open>
  Inside one window, a run is: calls that are skipped, then at most one call
  that gets past the guard, with every later call within the cooldown of it.
\<close>

lemma run_calls_window:
  assumes run: "isRunning w"
      and nz: "\<forall>c\<in>set cs. call_time c \<noteq> 0"
      and span: "\<forall>c\<in>set cs. \<forall>c'\<in>set cs. call_time c' - call_time c < cooldown"
  shows "run_calls cs w = (replicate (length cs) (Inr None), w)
       \<or> (\<exists>pre c post. cs = pre @ c # post
             \<and> run_calls pre w = (replicate (length pre) (Inr None), w)
             \<and> \<not> cooling_down (call_time c) w
             \<and> (\<forall>x\<in>set post. call_time x - call_time c < cooldown))"
  using nz span
proof (induction cs)
  case Nil
  then show ?case by simp
next
  case (Cons c cs)
  show ?case
  proof (cases "cooling_down (call_time c) w")
    case False
    from Cons.prems(2) have "\<forall>x\<in>set cs. call_time x - call_time c < cooldown" by simp
    with False have "c # cs = [] @ c # cs
        \<and> run_calls [] w = (replicate (length []) (Inr None), w)
        \<and> \<not> cooling_down (call_time c) w
        \<and> (\<forall>x\<in>set cs. call_time x - call_time c < cooldown)"
      by simp
    then show ?thesis by blast
  next
    case True
    then have skip: "runRefresh (fst c) (fst (snd c)) (call_time c) w = (Inr None, w)"
      by (simp add: runRefresh_def)
    from Cons.prems have "\<forall>c\<in>set cs. call_time c \<noteq> 0"
      and "\<forall>c\<in>set cs. \<forall>c'\<in>set cs. call_time c' - call_time c < cooldown" by simp_all
    from Cons.IH [OF this] show ?thesis
    proof
      assume "run_calls cs w = (replicate (length cs) (Inr None), w)"
      with skip show ?thesis by simp
    next
      assume "\<exists>pre c post. cs = pre @ c # post
             \<and> run_calls pre w = (replicate (length pre) (Inr None), w)
             \<and> \<not> cooling_down (call_time c) w
             \<and> (\<forall>x\<in>set post. call_time x - call_time c < cooldown)"
      then obtain pre d post where d: "cs = pre @ d # post"
          "run_calls pre w = (replicate (length pre) (Inr None), w)"
          "\<not> cooling_down (call_time d) w"
          "\<forall>x\<in>set post. call_time x - call_time d < cooldown" by blast
      with skip have "c # cs = (c # pre) @ d # post
          \<and> run_calls (c # pre) w = (replicate (length (c # pre)) (Inr None), w)
          \<and> \<not> cooling_down (call_time d) w
          \<and> (\<forall>x\<in>set post. call_time x - call_time d < cooldown)" by simp
      then show ?thesis by blast
    qed
  qed
qed

text \<open>
  Claim C1, amended.  The guard of \<open>runRefresh\<close> applies only while the job
  is started.  For a started job and a run of calls at nonzero times that all
  lie less than the cooldown apart (as the calls between two calls less than
  the cooldown apart do, when the clock does not go back): the upstream is
  contacted at most once in the run; and for every pair of its calls, when
  the earlier one ran, the later one returns nothing and leaves the whole
  state (store, \<open>lastRun\<close>, requests) as it found it.
\<close>

theorem runRefresh_cooldown:
  assumes run: "isRunning w"
      and nz: "\<forall>c\<in>set cs. call_time c \<noteq> 0"
      and span: "\<forall>c\<in>set cs. \<forall>c'\<in>set cs. call_time c' - call_time c < cooldown"
  shows "length (requests (snd (run_calls cs w))) \<le> length (requests w) + 1
       \<and> (\<forall>i j. i < j \<and> j < length cs \<and> fst (run_calls cs w) ! i \<noteq> Inr None \<longrightarrow>
             fst (run_calls cs w) ! j = Inr None
           \<and> snd (run_calls (take (Suc j) cs) w) = snd (run_calls (take j cs) w))"
proof -
  from run_calls_window [OF run nz span] show ?thesis
  proof
    assume none: "run_calls cs w = (replicate (length cs) (Inr None), w)"
    have "fst (run_calls cs w) ! i = Inr None" if "i < j" "j < length cs" for i j :: nat
      using that none by simp
    with none show ?thesis by auto
  next
    assume "\<exists>pre c post. cs = pre @ c # post
             \<and> run_calls pre w = (replicate (length pre) (Inr None), w)
             \<and> \<not> cooling_down (call_time c) w
             \<and> (\<forall>x\<in>set post. call_time x - call_time c < cooldown)"
    then obtain pre c post where cs: "cs = pre @ c # post"
        and pre: "run_calls pre w = (replicate (length pre) (Inr None), w)"
        and c: "\<not> cooling_down (call_time c) w"
        and post: "\<forall>x\<in>set post. call_time x - call_time c < cooldown" by blast
    define w1 where "w1 = snd (runRefresh (fst c) (fst (snd c)) (call_time c) w)"
    define r where "r = fst (runRefresh (fst c) (fst (snd c)) (call_time c) w)"
    from runRefresh_after [OF c, of "fst c" "fst (snd c)"] run
    have w1: "isRunning w1" "lastRun w1 = Some (call_time c)"
        "requests w1 = requests w @ [featured_request]" and r: "r \<noteq> Inr None"
      by (simp_all add: w1_def r_def)
    have rr: "runRefresh (fst c) (fst (snd c)) (call_time c) w = (r, w1)"
      by (simp add: r_def w1_def)
    from nz cs have t: "call_time c \<noteq> 0" by simp
    have later: "run_calls xs w1 = (replicate (length xs) (Inr None), w1)"
      if "set xs \<subseteq> set post" for xs
      using that post by (intro run_calls_all_skipped [OF w1(1,2) t]) blast
    have one: "run_calls (c # xs) w = (r # replicate (length xs) (Inr None), w1)"
      if "set xs \<subseteq> set post" for xs
      using later [OF that] rr by simp
    have upto: "run_calls (pre @ c # xs) w
        = (replicate (length pre) (Inr None) @ r # replicate (length xs) (Inr None), w1)"
      if "set xs \<subseteq> set post" for xs
      using one [OF that] pre by (simp add: run_calls_append)
    from upto [of post] cs have whole: "run_calls cs w
        = (replicate (length pre) (Inr None) @ r # replicate (length post) (Inr None), w1)"
      by simp
    have bound: "length (requests (snd (run_calls cs w))) \<le> length (requests w) + 1"
      using whole w1(3) by simp
    have pair: "fst (run_calls cs w) ! j = Inr None
           \<and> snd (run_calls (take (Suc j) cs) w) = snd (run_calls (take j cs) w)"
      if ij: "i < j" "j < length cs" and ex: "fst (run_calls cs w) ! i \<noteq> Inr None" for i j
    proof -
      from ij have i: "i < length cs" by simp
      have "i = length pre"
      proof (rule ccontr)
        assume "i \<noteq> length pre"
        with i cs have "(replicate (length pre) (Inr None) @ r
            # replicate (length post) (Inr None)) ! i = Inr None"
          by (auto simp: nth_append nth_Cons')
        with ex whole show False by simp
      qed
      with ij obtain k where k: "j = length pre + Suc k" "k < length post"
        using cs by (auto simp: less_iff_Suc_add)
      then have "fst (run_calls cs w) ! j = Inr None"
        using whole by (simp add: nth_append)
      moreover have "take j cs = pre @ c # take k post"
        "take (Suc j) cs = pre @ c # take (Suc k) post"
        using k cs by simp_all
      then have "snd (run_calls (take (Suc j) cs) w) = snd (run_calls (take j cs) w)"
        using upto [of "take k post"] upto [of "take (Suc k) post"]
        by (simp add: set_take_subset)
      ultimately show ?thesis by simp
    qed
    from bound pair show ?thesis by blast
  qed
qed

theorem runRefresh_cooldown_started:
  "isRunning started_job \<and> map call_time three_calls = [1000, 2000, 61000]
   \<and> (61000::int) - 1000 < cooldown
   \<and> fst (run_calls three_calls started_job) ! 0 \<noteq> Inr None
   \<and> fst (run_calls three_calls started_job) ! 1 = Inr None
   \<and> fst (run_calls three_calls started_job) ! 2 = Inr None
   \<and> snd (run_calls (take 3 three_calls) started_job)
       = snd (run_calls (take 2 three_calls) started_job)
   \<and> length (requests (snd (run_calls three_calls started_job))) \<le> 1"
proof -
  have times: "map call_time three_calls = [1000, 2000, 61000]"
    by (simp add: three_calls_def call_time_def)
  have nz: "\<forall>c\<in>set three_calls. call_time c \<noteq> 0"
    by (simp add: three_calls_def call_time_def)
  have span: "\<forall>c\<in>set three_calls. \<forall>c'\<in>set three_calls. call_time c' - call_time c < cooldown"
    by (simp add: three_calls_def call_time_def cooldown_def)
  have started: "isRunning started_job"
    by (simp add: started_job_def)
  have first: "fst (run_calls three_calls started_job) ! 0 \<noteq> Inr None"
    by (simp add: three_calls_def started_job_def call_time_def runRefresh_def cooling_down_def
        fetch_transform_replace_def fetchExploreTokens_def upstream_down_def Let_def
        split: prod.splits)
  from runRefresh_cooldown [OF started nz span]
  have all: "length (requests (snd (run_calls three_calls started_job)))
        \<le> length (requests started_job) + 1"
    and pairs: "\<And>i j. i < j \<Longrightarrow> j < length three_calls \<Longrightarrow>
        fst (run_calls three_calls started_job) ! i \<noteq> Inr None \<Longrightarrow>
        fst (run_calls three_calls started_job) ! j = Inr None
        \<and> snd (run_calls (take (Suc j) three_calls) started_job)
            = snd (run_calls (take j three_calls) started_job)"
    by blast+
  from pairs [of 0 1] pairs [of 0 2] first
  have "fst (run_calls three_calls started_job) ! 1 = Inr None"
    and "fst (run_calls three_calls started_job) ! 2 = Inr None"
    and "snd (run_calls (take 3 three_calls) started_job)
       = snd (run_calls (take 2 three_calls) started_job)"
    by (simp_all add: three_calls_def numeral_3_eq_3 numeral_2_eq_2)
  with all first times started show ?thesis
    by (simp add: started_job_def cooldown_def)
qed

text \<open>
  A job that was constructed and never started: two calls one second apart
  both reach the upstream.
\<close>

theorem runRefresh_unstarted_runs_twice:
  "requests (snd (run_calls two_calls new_job)) = [featured_request, featured_request]"
  by (simp add: two_calls_def call_time_def runRefresh_def cooling_down_def new_job_def
        fetch_transform_replace_def fetchExploreTokens_def upstream_down_def
        featured_request_def Let_def)

text \<open>
  Claim C4, amended.  \<open>forceRefresh\<close> is \<open>runRefresh\<close>, so a forced call of a
  started job inside the cooldown of a nonzero \<open>lastRun\<close> is skipped and
  changes nothing.  \<open>refreshFeaturedTokens\<close> has no guard: every call sends
  one request to the upstream, and it neither reads nor writes \<open>lastRun\<close>.
\<close>

theorem forced_refresh_paths:
  "forceRefresh up clock now w = runRefresh up clock now w
  \<and> (isRunning w \<and> lastRun w = Some t \<and> t \<noteq> 0 \<and> now - t < cooldown \<longrightarrow>
        forceRefresh up clock now w = (Inr None, w))
  \<and> requests (snd (refreshFeaturedTokens up clock w)) = requests w @ [featured_request]
  \<and> lastRun (snd (refreshFeaturedTokens up clock w)) = lastRun w"
  by (simp add: forceRefresh_def runRefresh_def cooling_down_def refreshFeaturedTokens_def
        fetch_transform_replace_requests fetch_transform_replace_job)

theorem forceRefresh_recent_skips:
  "isRunning recent_job \<and> lastRun recent_job = Some 1000 \<and> (1000::int) \<noteq> 0
   \<and> (2000::int) - 1000 < cooldown
   \<and> forceRefresh upstream_empty ticking 2000 recent_job = (Inr None, recent_job)"
  using forced_refresh_paths [of upstream_empty ticking 2000 recent_job 1000]
  by (simp add: recent_job_def cooldown_def forceRefresh_def runRefresh_def cooling_down_def)

text \<open>
  The same started job, one second after its last run began:
  \<open>refreshFeaturedTokens\<close> contacts the upstream.
\<close>

theorem refreshFeaturedTokens_ignores_cooldown:
  "requests (snd (refreshFeaturedTokens upstream_empty ticking recent_job)) = [featured_request]"
  by (simp add: refreshFeaturedTokens_def fetch_transform_replace_requests recent_job_def)

section \<open>A failed fetch\<close>

text \<open>
  Claim C2, amended.  When the upstream fails, a cycle of the refresh job
  (\<open>runRefresh\<close> past its guard, or \<open>refreshFeaturedTokens\<close>) ends with the
  error \<^verbatim>\<open>Failed to fetch FEATURED tokens: ...\<close> thrown to its caller and with
  the collection as it was.  \<open>fetchTokens\<close> of the file-backed server leaves
  its file as it was too, but it returns \<^verbatim>\<open>null\<close> instead of throwing.
\<close>

theorem fetch_failure_keeps_store:
  assumes "up featured_request = Inl m"
  shows "(\<not> cooling_down now w \<longrightarrow>
            fst (runRefresh up clock now w)
              = Inl (Error (''Failed to fetch FEATURED tokens: '' @ m))
            \<and> docs (snd (runRefresh up clock now w)) = docs w)
       \<and> fst (refreshFeaturedTokens up clock w)
           = Inl (Error (''Failed to fetch FEATURED tokens: '' @ m))
       \<and> docs (snd (refreshFeaturedTokens up clock w)) = docs w
       \<and> fetchTokens up clock now file = (None, file)"
  using assms
  by (simp add: runRefresh_def refreshFeaturedTokens_def fetch_transform_replace_fails
        fetchTokens_def)

theorem fetch_failure_timeout:
  "upstream_down featured_request = Inl ''timeout of 10000ms exceeded''
   \<and> \<not> cooling_down 1000 stocked_job
   \<and> fst (runRefresh upstream_down ticking 1000 stocked_job)
       = Inl (Error ''Failed to fetch FEATURED tokens: timeout of 10000ms exceeded'')
   \<and> docs (snd (runRefresh upstream_down ticking 1000 stocked_job)) = old_store
   \<and> fst (refreshFeaturedTokens upstream_down ticking stocked_job)
       = Inl (Error ''Failed to fetch FEATURED tokens: timeout of 10000ms exceeded'')
   \<and> docs (snd (refreshFeaturedTokens upstream_down ticking stocked_job)) = old_store"
  using fetch_failure_keeps_store [of upstream_down "''timeout of 10000ms exceeded''"
          1000 stocked_job ticking forty_five_file]
  by (simp add: upstream_down_def cooling_down_def stocked_job_def)

text \<open>
  \<open>fetchTokens\<close> under an upstream that times out: the caller gets \<^verbatim>\<open>null\<close>,
  no error.
\<close>

theorem fetchTokens_swallows_failure:
  "fetchTokens upstream_down ticking 2000 forty_five_file = (None, forty_five_file)"
  by (simp add: fetchTokens_def upstream_down_def)

section \<open>Nothing to store\<close>

text \<open>
  Claim C10.  Called with a missing or an empty list, \<open>replaceFeaturedTokens\<close>
  answers \<^verbatim>\<open>{ success: false }\<close> and leaves the collection as it was; so a
  cycle of \<open>runRefresh\<close> whose upstream answer has an empty or absent edge
  list keeps every stored document.
\<close>

theorem replace_nothing_keeps_store:
  "replaceFeaturedTokens None st = (Inr NoTokens, st)
 \<and> replaceFeaturedTokens (Some []) st = (Inr NoTokens, st)
 \<and> (up featured_request = Inr data
      \<and> (opt_prop (opt_prop data ''exploreList'') ''edges'' = JArr []
          \<or> \<not> truthy (opt_prop (opt_prop data ''exploreList'') ''edges''))
      \<and> \<not> cooling_down now w \<longrightarrow>
      fst (runRefresh up clock now w) = Inr (Some NoTokens)
      \<and> docs (snd (runRefresh up clock now w)) = docs w)"
proof -
  have "transformTokens data ''FEATURED'' clock = Inr []"
    if "opt_prop (opt_prop data ''exploreList'') ''edges'' = JArr []
          \<or> \<not> truthy (opt_prop (opt_prop data ''exploreList'') ''edges'')"
    using that by (auto simp: transformTokens_def Let_def)
  then show ?thesis
    by (auto simp: replaceFeaturedTokens_def runRefresh_def fetch_transform_replace_nothing)
qed

theorem refresh_empty_keeps_stock:
  "upstream_empty featured_request = Inr empty_response
   \<and> opt_prop (opt_prop empty_response ''exploreList'') ''edges'' = JArr []
   \<and> \<not> cooling_down 1000 stocked_job
   \<and> fst (runRefresh upstream_empty ticking 1000 stocked_job) = Inr (Some NoTokens)
   \<and> docs (snd (runRefresh upstream_empty ticking 1000 stocked_job)) = old_store
   \<and> replaceFeaturedTokens (Some []) old_store = (Inr NoTokens, old_store)"
  using replace_nothing_keeps_store [of old_store upstream_empty empty_response 1000
          stocked_job ticking]
  by (simp add: upstream_empty_def empty_response_def opt_prop_def cooling_down_def
        stocked_job_def)

section \<open>The transformer\<close>






lemma transform_edge_shape:
  "transform_edge lt now e = Inr t \<Longrightarrow>
     isActive t \<and> listType t = lt
     \<and> (address t = JUndefined \<or> (\<exists>s. address t = JStr (toLowerCase s)))"
  by (auto simp: transform_edge_def lowered_address_def split: sum.splits js.splits)

lemma map_edges_shape:
  "map_edges lt clock i es = Inr ts \<Longrightarrow> t \<in> set ts \<Longrightarrow>
     isActive t \<and> listType t = lt
     \<and> (address t = JUndefined \<or> (\<exists>s. address t = JStr (toLowerCase s)))"
proof (induction es arbitrary: i ts)
  case Nil
  then show ?case by simp
next
  case (Cons e es)
  from Cons.prems(1) obtain u us where
    u: "transform_edge lt (clock i) e = Inr u"
    and us: "map_edges lt clock (Suc i) es = Inr us"
    and ts: "ts = u # us"
    by (auto split: sum.splits)
  from Cons.prems(2) ts consider "t = u" | "t \<in> set us" by auto
  then show ?case
  proof cases
    case 1
    with transform_edge_shape [OF u] show ?thesis by simp
  next
    case 2
    with Cons.IH [OF us] show ?thesis by simp
  qed
qed

lemma transformTokens_shape:
  "transformTokens resp lt clock = Inr ts \<Longrightarrow> t \<in> set ts \<Longrightarrow>
     isActive t \<and> listType t = lt
     \<and> (address t = JUndefined \<or> (\<exists>s. address t = JStr (toLowerCase s)))"
  by (auto simp: transformTokens_def Let_def split: if_splits js.splits dest: map_edges_shape)

lemma transform_coin:
  "transformTokens coin_response ''FEATURED'' ticking = Inr [coin_token]"
proof -
  have low: "toLowerCase ''0xAbCdEf'' = ''0xabcdef''" by code_simp
  show ?thesis
    by (simp add: coin_response_def coin_token_def sample_token_def opt_prop_def
        transformTokens_def get_prop_def transform_edge_def lowered_address_def Let_def low
        ticking_def)
qed

section \<open>Replace, then read\<close>

lemma insert_ordered_done:
  "insert_ordered ts st = (Inr ds, st') \<Longrightarrow> ds = ts \<and> st' = st @ ts"
proof (induction ts arbitrary: st ds st')
  case Nil
  then show ?case by simp
next
  case (Cons t ts)
  from Cons.prems obtain ds' where
    rest: "insert_ordered ts (st @ [t]) = (Inr ds', st')" and ds: "ds = t # ds'"
    by (auto split: if_splits prod.splits sum.splits)
  from Cons.IH [OF rest] ds show ?case by simp
qed

lemma replace_done:
  assumes "replaceFeaturedTokens (Some ts) st = (Inr (Replaced d i n), st')"
  shows "st' = filter (\<lambda>t. listType t \<noteq> ''FEATURED'') st @ ts \<and> ts \<noteq> []
       \<and> d = length (filter (\<lambda>t. listType t = ''FEATURED'') st)
       \<and> i = length ts \<and> n = length ts"
  using assms
  by (auto simp: replaceFeaturedTokens_def deleteMany_def insertMany_def
           split: list.splits prod.splits sum.splits if_splits dest: insert_ordered_done)

lemma replace_keeps_given:
  assumes "replaceFeaturedTokens (Some ts) st = (Inr r, st')" and "t \<in> set ts"
  shows "t \<in> set st'"
proof (cases r)
  case NoTokens
  with assms show ?thesis
    by (auto simp: replaceFeaturedTokens_def split: list.splits prod.splits sum.splits)
next
  case (Replaced d i n)
  with assms replace_done [of ts st d i n st'] show ?thesis by simp
qed

lemma replace_coin:
  "replaceFeaturedTokens (Some [coin_token]) old_store
     = (Inr (Replaced 1 1 1), [sample_token ''n1'' ''0x0b'' ''NEW'' 11, coin_token])"
  by (simp add: replaceFeaturedTokens_def deleteMany_def insertMany_def old_store_def
        coin_token_def sample_token_def schema_valid_def list_types_def)




section \<open>Lookup by address\<close>

lemma lower_upper_char: "lower_char (upper_char c) = lower_char c"
proof (cases "97 \<le> (of_char c :: nat) \<and> (of_char c :: nat) \<le> 122")
  case True
  then have u: "upper_char c = char_of ((of_char c :: nat) - 32)"
    by (simp add: upper_char_def)
  have "(of_char c :: nat) - 32 < 256" using True by linarith
  then have "(of_char (char_of ((of_char c :: nat) - 32) :: char) :: nat) = of_char c - 32"
    by simp
  then have "lower_char (char_of ((of_char c :: nat) - 32))
      = char_of ((of_char c :: nat) - 32 + 32)"
    using True by (auto simp: lower_char_def)
  also have "(of_char c :: nat) - 32 + 32 = of_char c" using True by linarith
  also have "char_of (of_char c :: nat) = c" by simp
  finally have "lower_char (upper_char c) = c" using u by simp
  moreover have "lower_char c = c" using True by (simp add: lower_char_def)
  ultimately show ?thesis by simp
next
  case False
  then show ?thesis by (auto simp: upper_char_def)
qed

lemma lower_char_idem: "lower_char (lower_char c) = lower_char c"
proof (cases "65 \<le> (of_char c :: nat) \<and> (of_char c :: nat) \<le> 90")
  case True
  then have "(of_char c :: nat) + 32 < 256" by linarith
  then have "(of_char (char_of ((of_char c :: nat) + 32) :: char) :: nat) = of_char c + 32"
    by simp
  then show ?thesis using True by (auto simp: lower_char_def)
next
  case False
  then show ?thesis by (auto simp: lower_char_def)
qed

lemma toLowerCase_idem: "toLowerCase (toLowerCase s) = toLowerCase s"
  by (simp add: toLowerCase_def lower_char_idem)

lemma toLowerCase_upper: "toLowerCase (toUpperCase q) = toLowerCase q"
  by (simp add: toLowerCase_def toUpperCase_def lower_upper_char)

lemma same_up_to_case_lower: "same_up_to_case q a \<Longrightarrow> toLowerCase q = toLowerCase a"
  unfolding same_up_to_case_def toLowerCase_def
  by (induction q a rule: list_all2_induct) simp_all

text \<open>
  Claim C7.  A token that \<open>transformTokens\<close> made and the replace stored has
  its address in lower case.  A lookup under any spelling \<open>q\<close> of that
  address (the same characters up to their case) finds an active document
  with that address, the same one whatever the spelling: \<open>q\<close> itself, \<open>q\<close>
  in upper case, \<open>q\<close> in lower case or the stored address; and it is the
  token itself when no other active document has its address.
\<close>

theorem address_lookup_ignores_case:
  assumes tr: "transformTokens resp ''FEATURED'' clock = Inr ts"
      and rp: "replaceFeaturedTokens (Some ts) st = (Inr r, st')"
      and t: "t \<in> set ts" and a: "address t = JStr a"
      and q: "ascii q" "same_up_to_case q a"
  shows "toLowerCase a = a
       \<and> (\<exists>t'. getTokenByAddress q st' = Some t' \<and> address t' = JStr a \<and> isActive t')
       \<and> getTokenByAddress (toUpperCase q) st' = getTokenByAddress q st'
       \<and> getTokenByAddress (toLowerCase q) st' = getTokenByAddress q st'
       \<and> getTokenByAddress a st' = getTokenByAddress q st'
       \<and> ((\<forall>u\<in>set st'. address u = JStr a \<and> isActive u \<longrightarrow> u = t) \<longrightarrow>
             getTokenByAddress q st' = Some t)"
proof -
  from transformTokens_shape [OF tr t] a obtain s where
    act: "isActive t" and s: "a = toLowerCase s" by auto
  then have low: "toLowerCase a = a" by (simp add: toLowerCase_idem)
  with same_up_to_case_lower [OF q(2)] have qa: "toLowerCase q = a" by simp
  from replace_keeps_given [OF rp t] have "t \<in> set st'" .
  with a act qa have "\<exists>x. x \<in> set st' \<and> address x = JStr (toLowerCase q) \<and> isActive x"
    by blast
  then obtain t' where found: "getTokenByAddress q st' = Some t'"
    unfolding getTokenByAddress_def
    by (cases "find (\<lambda>t. address t = JStr (toLowerCase q) \<and> isActive t) st'")
       (auto simp: find_None_iff)
  then have t': "t' \<in> set st'" "address t' = JStr a" "isActive t'"
    using qa by (auto simp: getTokenByAddress_def find_Some_iff)
  have "getTokenByAddress q st' = Some t"
    if "\<forall>u\<in>set st'. address u = JStr a \<and> isActive u \<longrightarrow> u = t"
    using that found t' by simp
  with found t' show ?thesis
    using low qa by (simp add: getTokenByAddress_def toLowerCase_upper toLowerCase_idem)
qed

theorem address_lookup_coin:
  "transformTokens coin_response ''FEATURED'' ticking = Inr [coin_token]
   \<and> address coin_token = JStr ''0xabcdef''
   \<and> ascii ''0XABCDEF'' \<and> same_up_to_case ''0XABCDEF'' ''0xabcdef''
   \<and> getTokenByAddress ''0XABCDEF'' [sample_token ''n1'' ''0x0b'' ''NEW'' 11, coin_token]
       = Some coin_token
   \<and> getTokenByAddress ''0xabcdef'' [sample_token ''n1'' ''0x0b'' ''NEW'' 11, coin_token]
       = Some coin_token"
proof -
  have a: "address coin_token = JStr ''0xabcdef''"
    by (simp add: coin_token_def sample_token_def)
  have q: "ascii ''0XABCDEF''" "same_up_to_case ''0XABCDEF'' ''0xabcdef''"
    by code_simp+
  have only: "\<forall>u\<in>set [sample_token ''n1'' ''0x0b'' ''NEW'' 11, coin_token].
      address u = JStr ''0xabcdef'' \<and> isActive u \<longrightarrow> u = coin_token"
    by (simp add: sample_token_def)
  from address_lookup_ignores_case [OF transform_coin replace_coin _ a q] only
  have "getTokenByAddress ''0XABCDEF'' [sample_token ''n1'' ''0x0b'' ''NEW'' 11, coin_token]
          = Some coin_token"
    and "getTokenByAddress ''0xabcdef'' [sample_token ''n1'' ''0x0b'' ''NEW'' 11, coin_token]
          = Some coin_token"
    by simp_all
  with transform_coin a q show ?thesis by simp
qed

section \<open>Pagination\<close>

text \<open>
  Claim C8.  With exactly 45 active documents of a list type and a limit of
  20, page 1 holds the first 20 of them in query order, with a next and no
  previous page, and page 3 holds the last 5, with a previous and no next
  page.  The handler of the file-backed server slices its 45 tokens the same
  way.
\<close>

theorem pagination_of_45:
  "(length (filter (in_list lt) st) = 45 \<longrightarrow>
      (\<exists>p1 p3. getTokensByListType lt 1 20 st = Inr p1 \<and> getTokensByListType lt 3 20 st = Inr p3
         \<and> tokens p1 = take 20 (newest_first (filter (in_list lt) st))
         \<and> length (tokens p1) = 20
         \<and> hasNext (pagination p1) \<and> \<not> hasPrev (pagination p1)
         \<and> tokens p3 = drop 40 (newest_first (filter (in_list lt) st))
         \<and> length (tokens p3) = 5
         \<and> \<not> hasNext (pagination p3) \<and> hasPrev (pagination p3)
         \<and> total (pagination p1) = 45 \<and> pages (pagination p1) = Pages 3))
 \<and> (length (file_tokens (loadTokens file)) = 45 \<longrightarrow>
      (\<exists>b1 b3. route_featured 1 20 file = Reply 200 b1 \<and> route_featured 3 20 file = Reply 200 b3
         \<and> fl_data b1 = take 20 (file_tokens (loadTokens file)) \<and> length (fl_data b1) = 20
         \<and> hasNext (fl_pagination b1) \<and> \<not> hasPrev (fl_pagination b1)
         \<and> fl_data b3 = drop 40 (file_tokens (loadTokens file)) \<and> length (fl_data b3) = 5
         \<and> \<not> hasNext (fl_pagination b3) \<and> hasPrev (fl_pagination b3)))"
  by (simp add: getTokensByListType_def Let_def limit_docs_def newest_first_def ceil_div_def
        route_featured_def js_slice_def)

lemma numbered_in_list: "in_list ''FEATURED'' (numbered_token i)"
  by (simp add: in_list_def numbered_token_def sample_token_def)

lemma forty_five_listed: "filter (in_list ''FEATURED'') forty_five = forty_five"
  by (simp add: forty_five_def numbered_in_list del: upt.simps)

lemma forty_five_oldest: "map lastUpdated (drop 40 (newest_first forty_five)) = [4, 3, 2, 1, 0]"
  by code_simp

theorem pagination_forty_five:
  "length (filter (in_list ''FEATURED'') forty_five) = 45
 \<and> length (file_tokens (loadTokens forty_five_file)) = 45
 \<and> (\<exists>p1 p3. getTokensByListType ''FEATURED'' 1 20 forty_five = Inr p1
         \<and> getTokensByListType ''FEATURED'' 3 20 forty_five = Inr p3
         \<and> length (tokens p1) = 20 \<and> hasNext (pagination p1) \<and> \<not> hasPrev (pagination p1)
         \<and> map lastUpdated (tokens p3) = [4, 3, 2, 1, 0]
         \<and> \<not> hasNext (pagination p3) \<and> hasPrev (pagination p3))
 \<and> (\<exists>b1 b3. route_featured 1 20 forty_five_file = Reply 200 b1
         \<and> route_featured 3 20 forty_five_file = Reply 200 b3
         \<and> map ft_id (fl_data b1) = [1..<21]
         \<and> hasNext (fl_pagination b1) \<and> \<not> hasPrev (fl_pagination b1)
         \<and> map ft_id (fl_data b3) = [41..<46]
         \<and> \<not> hasNext (fl_pagination b3) \<and> hasPrev (fl_pagination b3))"
proof -
  have a: "length (filter (in_list ''FEATURED'') forty_five) = 45"
    by (simp add: forty_five_listed) (simp add: forty_five_def)
  have b: "length (file_tokens (loadTokens forty_five_file)) = 45"
    by (simp add: forty_five_file_def loadTokens_def)
  have ids: "map ft_id (map numbered_file_token xs) = map Suc xs" for xs
    by (simp add: numbered_file_token_def)
  have t: "map ft_id (take 20 (file_tokens (loadTokens forty_five_file))) = [1..<21]"
    by (simp add: forty_five_file_def loadTokens_def take_map ids del: upt.simps) code_simp
  have d: "map ft_id (drop 40 (file_tokens (loadTokens forty_five_file))) = [41..<46]"
    by (simp add: forty_five_file_def loadTokens_def drop_map ids del: upt.simps) code_simp
  from pagination_of_45 [of "''FEATURED''" forty_five forty_five_file] a
  obtain p1 p3 where db: "getTokensByListType ''FEATURED'' 1 20 forty_five = Inr p1"
      "getTokensByListType ''FEATURED'' 3 20 forty_five = Inr p3"
      "length (tokens p1) = 20" "hasNext (pagination p1)" "\<not> hasPrev (pagination p1)"
      "tokens p3 = drop 40 (newest_first (filter (in_list ''FEATURED'') forty_five))"
      "\<not> hasNext (pagination p3)" "hasPrev (pagination p3)"
    by blast
  from db(6) have last: "map lastUpdated (tokens p3) = [4, 3, 2, 1, 0]"
    by (simp add: forty_five_listed forty_five_oldest)
  from pagination_of_45 [of "''FEATURED''" forty_five forty_five_file] b
  obtain b1 b3 where fl: "route_featured 1 20 forty_five_file = Reply 200 b1"
      "route_featured 3 20 forty_five_file = Reply 200 b3"
      "fl_data b1 = take 20 (file_tokens (loadTokens forty_five_file))"
      "hasNext (fl_pagination b1)" "\<not> hasPrev (fl_pagination b1)"
      "fl_data b3 = drop 40 (file_tokens (loadTokens forty_five_file))"
      "\<not> hasNext (fl_pagination b3)" "hasPrev (fl_pagination b3)"
    by blast
  from fl t d have ids1: "map ft_id (fl_data b1) = [1..<21]"
    and ids3: "map ft_id (fl_data b3) = [41..<46]"
    by simp_all
  have "\<exists>p1 p3. getTokensByListType ''FEATURED'' 1 20 forty_five = Inr p1
         \<and> getTokensByListType ''FEATURED'' 3 20 forty_five = Inr p3
         \<and> length (tokens p1) = 20 \<and> hasNext (pagination p1) \<and> \<not> hasPrev (pagination p1)
         \<and> map lastUpdated (tokens p3) = [4, 3, 2, 1, 0]
         \<and> \<not> hasNext (pagination p3) \<and> hasPrev (pagination p3)"
    by (rule exI [of _ p1], rule exI [of _ p3]) (simp add: db(1-5,7,8) last)
  moreover have "\<exists>b1 b3. route_featured 1 20 forty_five_file = Reply 200 b1
         \<and> route_featured 3 20 forty_five_file = Reply 200 b3
         \<and> map ft_id (fl_data b1) = [1..<21]
         \<and> hasNext (fl_pagination b1) \<and> \<not> hasPrev (fl_pagination b1)
         \<and> map ft_id (fl_data b3) = [41..<46]
         \<and> \<not> hasNext (fl_pagination b3) \<and> hasPrev (fl_pagination b3)"
    by (rule exI [of _ b1], rule exI [of _ b3]) (simp add: fl(1,2,4,5,7,8) ids1 ids3)
  ultimately show ?thesis using a b by blast
qed

section \<open>Search\<close>

lemma length_trim: "length (trim s) \<le> length s"
proof -
  have "length (trim s) = length (dropWhile is_space (rev (dropWhile is_space s)))"
    by (simp add: trim_def)
  also have "\<dots> \<le> length (rev (dropWhile is_space s))"
    by (rule length_dropWhile_le)
  also have "\<dots> \<le> length s"
    by (simp add: length_dropWhile_le)
  finally show ?thesis .
qed

text \<open>
  Claim C9.  A search whose query is missing or has fewer than 2 characters
  is answered with status 400.  The controller has asked nothing of the
  store by then; the handler of the file-backed server has loaded its file,
  and has not filtered it.
\<close>

theorem short_query_rejected:
  "(q = None \<or> (\<exists>s. q = Some s \<and> length s < 2)) \<longrightarrow>
     status (fst (controller_searchTokens rx q lt lim st)) = 400
   \<and> snd (controller_searchTokens rx q lt lim st) = []
   \<and> status (fst (route_search rx q lim file)) = 400
   \<and> snd (route_search rx q lim file) = [LoadFile]"
proof (cases q)
  case None
  then show ?thesis by (simp add: controller_searchTokens_def route_search_def)
next
  case (Some s)
  show ?thesis
  proof
    assume "q = None \<or> (\<exists>s. q = Some s \<and> length s < 2)"
    with Some have short: "length s < 2" by simp
    with length_trim [of s] have "length (trim s) < 2" by linarith
    with short Some show "status (fst (controller_searchTokens rx q lt lim st)) = 400
       \<and> snd (controller_searchTokens rx q lt lim st) = []
       \<and> status (fst (route_search rx q lim file)) = 400
       \<and> snd (route_search rx q lim file) = [LoadFile]"
      by (simp add: controller_searchTokens_def route_search_def)
  qed
qed

theorem short_query_one_letter:
  "status (fst (controller_searchTokens any_regex (Some ''a'') None 20 forty_five)) = 400
   \<and> snd (controller_searchTokens any_regex (Some ''a'') None 20 forty_five) = []
   \<and> status (fst (route_search any_regex (Some ''a'') 20 forty_five_file)) = 400
   \<and> snd (route_search any_regex (Some ''a'') 20 forty_five_file) = [LoadFile]
   \<and> status (fst (controller_searchTokens any_regex None None 20 forty_five)) = 400"
  using short_query_rejected [of "Some ''a''" any_regex None 20 forty_five forty_five_file]
        short_query_rejected [of None any_regex None 20 forty_five forty_five_file]
  by simp

end
